theory Spec2Isabelle
  imports
    Complex_Main
    "HOL-Library.Char_ord"
    "HOL-Library.List_Lexorder"
    "HOL-Library.Product_Lexorder"
    "HOL-Library.Multiset"
begin

section \<open>Python's stable sorts\<close>

text \<open>
  \<^verbatim>\<open>list.sort(key=..., reverse=True)\<close> and \<^verbatim>\<open>sorted(..., key=..., reverse=True)\<close> order by
  descending key and keep elements with equal keys in their input order.  The model is an
  insertion sort that works from the right end of the list: an element is placed in front of
  the first element whose key is not larger, hence in front of every later element with the
  same key.
\<close>

fun insert_desc :: "('a \<Rightarrow> 'k::linorder) \<Rightarrow> 'a \<Rightarrow> 'a list \<Rightarrow> 'a list" where
  "insert_desc key x [] = [x]"
| "insert_desc key x (y # ys) =
     (if key y \<le> key x then x # y # ys else y # insert_desc key x ys)"

fun sort_desc :: "('a \<Rightarrow> 'k::linorder) \<Rightarrow> 'a list \<Rightarrow> 'a list" where
  "sort_desc key [] = []"
| "sort_desc key (x # xs) = insert_desc key x (sort_desc key xs)"

section \<open>Learning weight store (session_state.py)\<close>

text \<open>
  The three tables of \<^verbatim>\<open>init_db\<close>.  A \<^verbatim>\<open>REAL\<close> value is a rational; in the weight update of
  SQLite the arithmetic is taken exact, so that \<^verbatim>\<open>0.1\<close> is one tenth (the float arithmetic of
  the ranking is treated further down).  \<^verbatim>\<open>INTEGER\<close> columns are unbounded integers; timestamps
  (\<^verbatim>\<open>datetime.now().isoformat()\<close>) are passed in as strings.
\<close>

record session_row =
  started_at :: string
  ended_at :: "string option"
  tool_calls :: int
  sess_successes :: int
  failures :: int

record usage_row =
  u_session_id :: string
  u_tool_id :: string
  u_need :: string
  u_timestamp :: string
  u_success :: int
  u_notes :: string

record weight_row =
  weight :: rat
  total_uses :: int
  successes :: int
  last_used :: string

type_synonym tool_weights = "string \<rightharpoonup> weight_row"

record db =
  sessions :: "string \<rightharpoonup> session_row"
  tool_usage :: "usage_row list"
  weights :: tool_weights

definition init_db :: db where
  "init_db = \<lparr>sessions = Map.empty, tool_usage = [], weights = Map.empty\<rparr>"

text \<open>
  \<^verbatim>\<open>INSERT INTO tool_weights ... VALUES (?, 1.0, 1, ?, ?) ON CONFLICT(tool_id) DO UPDATE SET ...\<close>:
  without a row for the tool the values are inserted as they are; with one, the row is updated,
  \<^verbatim>\<open>excluded.successes\<close> being the 0 or 1 of the attempted insert.
\<close>

definition update_tool_weight :: "tool_weights \<Rightarrow> string \<Rightarrow> bool \<Rightarrow> string \<Rightarrow> tool_weights" where
  "update_tool_weight tw tool_id success now =
     (let excluded_successes = (if success then 1 else 0 :: int) in
      case tw tool_id of
        None \<Rightarrow>
          tw(tool_id \<mapsto>
            \<lparr>weight = 1, total_uses = 1, successes = excluded_successes, last_used = now\<rparr>)
      | Some row \<Rightarrow>
          tw(tool_id \<mapsto>
            \<lparr>weight =
               (if excluded_successes > 0 then min (weight row + 1 / 10) 2
                else max (weight row - 1 / 10) (1 / 10)),
             total_uses = total_uses row + 1,
             successes = successes row + excluded_successes,
             last_used = now\<rparr>))"

definition log_tool_use :: "db \<Rightarrow> string \<Rightarrow> string \<Rightarrow> string \<Rightarrow> bool \<Rightarrow> string \<Rightarrow> string \<Rightarrow> db" where
  "log_tool_use d session_id tool_id need success notes now =
     (let usage = \<lparr>u_session_id = session_id, u_tool_id = tool_id, u_need = need,
                    u_timestamp = now, u_success = (if success then 1 else 0),
                    u_notes = notes\<rparr>;
          sess = (case sessions d session_id of
                    None \<Rightarrow> sessions d
                  | Some s \<Rightarrow>
                      if success
                      then (sessions d)(session_id \<mapsto>
                             s\<lparr>tool_calls := tool_calls s + 1,
                               sess_successes := sess_successes s + 1\<rparr>)
                      else (sessions d)(session_id \<mapsto>
                             s\<lparr>tool_calls := tool_calls s + 1,
                               failures := failures s + 1\<rparr>))
      in \<lparr>sessions = sess,
          tool_usage = tool_usage d @ [usage],
          weights = update_tool_weight (weights d) tool_id success now\<rparr>)"

definition get_tool_weight :: "tool_weights \<Rightarrow> string \<Rightarrow> rat" where
  "get_tool_weight tw tool_id = (case tw tool_id of Some row \<Rightarrow> weight row | None \<Rightarrow> 1)"

text \<open>A sequence of outcome reports: tool id, success flag and the time of the report.\<close>

fun record_outcomes :: "tool_weights \<Rightarrow> (string \<times> bool \<times> string) list \<Rightarrow> tool_weights" where
  "record_outcomes tw [] = tw"
| "record_outcomes tw ((tool_id, success, now) # rs) =
     record_outcomes (update_tool_weight tw tool_id success now) rs"

text \<open>
  Python floats are IEEE 754 binary64 numbers.  A finite one is read as the rational it
  denotes, and an arithmetic operation returns its exact result rounded to the nearest
  binary64 number, ties to the even significand.  \<open>binary64\<close> is that rounding for results
  of magnitude below \<open>2 ^ 1024\<close> (a larger result is an infinity or an \<^verbatim>\<open>OverflowError\<close>, which
  the examples never reach): 53 significant bits, and the fixed unit \<open>2 ^ (- 1074)\<close> below
  \<open>2 ^ (- 1022)\<close>.
\<close>

fun bit_length :: "nat \<Rightarrow> nat" where
  "bit_length n = (if n = 0 then 0 else Suc (bit_length (n div 2)))"

declare bit_length.simps [simp del]

text \<open>The integer \<open>k\<close> with \<open>2 ^ k \<le> q < 2 ^ (k + 1)\<close>, for a positive \<open>q\<close>.\<close>

definition floor_log2 :: "rat \<Rightarrow> int" where
  "floor_log2 q =
     (if 1 \<le> q then int (bit_length (nat \<lfloor>q\<rfloor>)) - 1
      else - int (bit_length (nat (\<lceil>1 / q\<rceil> - 1))))"

definition round_half_even :: "rat \<Rightarrow> int" where
  "round_half_even q =
     (let n = \<lfloor>q\<rfloor>; r = q - of_int n
      in if r < 1 / 2 then n else if 1 / 2 < r then n + 1 else if even n then n else n + 1)"

definition binary64 :: "rat \<Rightarrow> rat" where
  "binary64 q =
     (if q = 0 then 0
      else (let a = \<bar>q\<bar>;
                e = max (floor_log2 a) (- 1022);
                ulp = power_int 2 (e - 52)
            in sgn q * of_int (round_half_even (a / ulp)) * ulp))"

text \<open>\<^verbatim>\<open>a / b\<close> on two Python ints with \<open>b \<noteq> 0\<close>, and \<^verbatim>\<open>x * y\<close> on two floats.\<close>

definition py_truediv :: "int \<Rightarrow> int \<Rightarrow> rat" where
  "py_truediv a b = binary64 (of_int a / of_int b)"

definition py_float_mul :: "rat \<Rightarrow> rat \<Rightarrow> rat" where
  "py_float_mul x y = binary64 (x * y)"

text \<open>
  The ranking reads the stored weight as it is and computes two floats: the success rate
  \<^verbatim>\<open>row["successes"] / row["total_uses"]\<close> and the sort key
  \<^verbatim>\<open>x["weight"] * x["success_rate"]\<close>.  The division and the multiplication of the machine are
  the arguments \<open>truediv\<close> and \<open>mul\<close> of the model, so that nothing below depends on how they
  round; the result type of \<open>mul\<close> is any linear order (the finite floats, or the floats with
  their infinities).  \<open>py_truediv\<close> and \<open>py_float_mul\<close> are the instances used in the examples.
  The constants \<^verbatim>\<open>1.0\<close> and \<^verbatim>\<open>0.5\<close> are binary64 numbers.
\<close>

record ranked =
  r_tool_id :: string
  r_weight :: rat
  r_uses :: int
  r_success_rate :: rat

definition rank_row :: "(int \<Rightarrow> int \<Rightarrow> rat) \<Rightarrow> tool_weights \<Rightarrow> string \<Rightarrow> ranked" where
  "rank_row truediv tw tool_id =
     (case tw tool_id of
        Some row \<Rightarrow>
          \<lparr>r_tool_id = tool_id, r_weight = weight row, r_uses = total_uses row,
           r_success_rate =
             (if total_uses row > 0 then truediv (successes row) (total_uses row)
              else 1 / 2)\<rparr>
      | None \<Rightarrow>
          \<lparr>r_tool_id = tool_id, r_weight = 1, r_uses = 0, r_success_rate = 1 / 2\<rparr>)"

definition compound_score :: "(rat \<Rightarrow> rat \<Rightarrow> 'k) \<Rightarrow> ranked \<Rightarrow> 'k" where
  "compound_score mul x = mul (r_weight x) (r_success_rate x)"

definition get_weighted_tool_ranking ::
  "(int \<Rightarrow> int \<Rightarrow> rat) \<Rightarrow> (rat \<Rightarrow> rat \<Rightarrow> 'k::linorder) \<Rightarrow> tool_weights \<Rightarrow> string list
     \<Rightarrow> ranked list" where
  "get_weighted_tool_ranking truediv mul tw tool_ids =
     sort_desc (compound_score mul) (map (rank_row truediv tw) tool_ids)"

section \<open>Conversation hub (backend_8825/conversation_hub_client.py)\<close>

text \<open>
  One JSON file per conversation and one index file.  Times (\<^verbatim>\<open>datetime.utcnow()\<close>) and fresh
  identifiers (\<^verbatim>\<open>uuid.uuid4()\<close>) are arguments of the operations.  An index entry is the dict that
  \<^verbatim>\<open>_update_index\<close> writes; the key \<^verbatim>\<open>owner\<close>, which \<^verbatim>\<open>list_conversations\<close> reads with
  \<^verbatim>\<open>.get("owner")\<close>, is optional: \<open>None\<close> is the absent key.
\<close>

datatype py_error = KeyError | OSError | TypeError

record message =
  m_id :: string
  m_role :: string
  m_content :: string
  m_surface :: string
  m_mode :: "string option"
  m_timestamp :: string
  m_meta :: "(string \<times> string) list"

record artifact =
  a_type :: string
  a_id :: string
  a_title :: "string option"
  a_confidence :: rat
  a_linked_at :: string

record conversation =
  c_id :: string
  c_topic :: string
  c_owner :: string
  c_surfaces :: "string list"
  c_tags :: "string list"
  c_messages :: "message list"
  c_artifacts :: "artifact list"
  c_created_at :: string
  c_updated_at :: string
  c_status :: string
  c_message_count :: nat

record index_entry =
  e_id :: string
  e_topic :: string
  e_owner :: "string option"
  e_surfaces :: "string list"
  e_created_at :: string
  e_updated_at :: string
  e_message_count :: nat
  e_status :: string

text \<open>
  The store: the conversation files by id, the list under \<^verbatim>\<open>"conversations"\<close> of the index file
  (empty while the file does not exist), and whether \<^verbatim>\<open>open(path, 'w')\<close> succeeds.
\<close>

record hub =
  files :: "string \<rightharpoonup> conversation"
  index :: "index_entry list"
  writable :: bool

definition empty_hub :: hub where
  "empty_hub = \<lparr>files = Map.empty, index = [], writable = True\<rparr>"

definition load_index :: "hub \<Rightarrow> index_entry list" where
  "load_index st = index st"

text \<open>\<^verbatim>\<open>_save_index\<close> catches and logs a failed write.\<close>

definition save_index :: "hub \<Rightarrow> index_entry list \<Rightarrow> hub" where
  "save_index st idx = (if writable st then st\<lparr>index := idx\<rparr> else st)"

fun update_first :: "('a \<Rightarrow> bool) \<Rightarrow> ('a \<Rightarrow> 'a) \<Rightarrow> 'a list \<Rightarrow> 'a list" where
  "update_first P f [] = []"
| "update_first P f (x # xs) = (if P x then f x # xs else x # update_first P f xs)"

text \<open>
  \<^verbatim>\<open>list(set(entry.get("surfaces", []) + surfaces))\<close> has the members of both lists once each,
  in an order Python does not fix; \<open>remdups\<close> picks one.
\<close>

definition update_index :: "hub \<Rightarrow> string \<Rightarrow> string \<Rightarrow> string list \<Rightarrow> string \<Rightarrow> hub" where
  "update_index st conversation_id topic surfaces now =
     (let idx = load_index st in
      case find (\<lambda>conv. e_id conv = conversation_id) idx of
        None \<Rightarrow>
          save_index st
            (idx @ [\<lparr>e_id = conversation_id, e_topic = topic, e_owner = None,
                     e_surfaces = surfaces, e_created_at = now, e_updated_at = now,
                     e_message_count = 0, e_status = ''active''\<rparr>])
      | Some _ \<Rightarrow>
          save_index st
            (update_first (\<lambda>conv. e_id conv = conversation_id)
               (\<lambda>entry. entry\<lparr>e_updated_at := now,
                                e_surfaces := remdups (e_surfaces entry @ surfaces)\<rparr>)
               idx))"

definition conversation_id_of :: "string \<Rightarrow> string \<Rightarrow> string \<Rightarrow> string" where
  "conversation_id_of date user_id uuid8 = ''conv_'' @ date @ ''_'' @ user_id @ ''_'' @ uuid8"

text \<open>The write of the conversation file is outside any \<^verbatim>\<open>try\<close>: a failure propagates.\<close>

definition create_conversation ::
  "hub \<Rightarrow> string \<Rightarrow> string \<Rightarrow> string \<Rightarrow> string list option \<Rightarrow> string \<Rightarrow> string \<Rightarrow> string
     \<Rightarrow> py_error + (string \<times> hub)" where
  "create_conversation st topic user_id surface_id tags date uuid8 now =
     (let conversation_id = conversation_id_of date user_id uuid8;
          conversation =
            \<lparr>c_id = conversation_id, c_topic = topic, c_owner = user_id,
             c_surfaces = [surface_id],
             c_tags = (case tags of None \<Rightarrow> [] | Some ts \<Rightarrow> ts),
             c_messages = [], c_artifacts = [],
             c_created_at = now, c_updated_at = now, c_status = ''active'',
             c_message_count = 0\<rparr>
      in if \<not> writable st then Inl OSError
         else Inr (conversation_id,
                   update_index (st\<lparr>files := (files st)(conversation_id \<mapsto> conversation)\<rparr>)
                     conversation_id topic [surface_id] now))"

definition get_conversation :: "hub \<Rightarrow> string \<Rightarrow> conversation option" where
  "get_conversation st conversation_id = files st conversation_id"

definition append_message ::
  "hub \<Rightarrow> string \<Rightarrow> string \<Rightarrow> string \<Rightarrow> string \<Rightarrow> string option \<Rightarrow> (string \<times> string) list option
     \<Rightarrow> string \<Rightarrow> string \<Rightarrow> bool \<times> hub" where
  "append_message st conversation_id role content surface_id mode metadata msg_id now =
     (case get_conversation st conversation_id of
        None \<Rightarrow> (False, st)
      | Some conversation \<Rightarrow>
          (let message =
                 \<lparr>m_id = msg_id, m_role = role, m_content = content, m_surface = surface_id,
                  m_mode = mode, m_timestamp = now,
                  m_meta = (case metadata of None \<Rightarrow> [] | Some m \<Rightarrow> m)\<rparr>;
               msgs = c_messages conversation @ [message];
               c1 = conversation\<lparr>c_messages := msgs, c_updated_at := now,
                                   c_message_count := length msgs\<rparr>;
               c2 = (if surface_id \<in> set (c_surfaces c1) then c1
                     else c1\<lparr>c_surfaces := c_surfaces c1 @ [surface_id]\<rparr>)
           in if \<not> writable st then (False, st)
              else (True,
                    update_index (st\<lparr>files := (files st)(conversation_id \<mapsto> c2)\<rparr>)
                      conversation_id (c_topic c2) (c_surfaces c2) now)))"

definition link_artifact ::
  "hub \<Rightarrow> string \<Rightarrow> string \<Rightarrow> string \<Rightarrow> string option \<Rightarrow> rat \<Rightarrow> string \<Rightarrow> bool \<times> hub" where
  "link_artifact st conversation_id artifact_type artifact_id title confidence now =
     (case get_conversation st conversation_id of
        None \<Rightarrow> (False, st)
      | Some conversation \<Rightarrow>
          (let artifact =
                 \<lparr>a_type = artifact_type, a_id = artifact_id, a_title = title,
                  a_confidence = confidence, a_linked_at = now\<rparr>
           in if list_ex (\<lambda>existing. a_id existing = artifact_id) (c_artifacts conversation)
              then (True, st)
              else
                (let c1 = conversation\<lparr>c_artifacts := c_artifacts conversation @ [artifact],
                                        c_updated_at := now\<rparr>
                 in if \<not> writable st then (False, st)
                    else (True, st\<lparr>files := (files st)(conversation_id \<mapsto> c1)\<rparr>))))"

definition close_conversation :: "hub \<Rightarrow> string \<Rightarrow> string \<Rightarrow> bool \<times> hub" where
  "close_conversation st conversation_id now =
     (case get_conversation st conversation_id of
        None \<Rightarrow> (False, st)
      | Some conversation \<Rightarrow>
          (let c1 = conversation\<lparr>c_status := ''closed'', c_updated_at := now\<rparr>
           in if \<not> writable st then (False, st)
              else (True, st\<lparr>files := (files st)(conversation_id \<mapsto> c1)\<rparr>)))"

text \<open>
  The three \<^verbatim>\<open>continue\<close> tests of the listing loop, in the source's order.  \<^verbatim>\<open>if x and ...\<close>
  skips the test for \<^verbatim>\<open>None\<close> and for the empty string.
\<close>

definition skipped :: "string option \<Rightarrow> string option \<Rightarrow> string \<Rightarrow> index_entry \<Rightarrow> bool" where
  "skipped user_id surface_id status conv_summary =
     (if status \<noteq> [] \<and> e_status conv_summary \<noteq> status then True
      else if (case user_id of None \<Rightarrow> False
               | Some u \<Rightarrow> u \<noteq> [] \<and> e_owner conv_summary \<noteq> Some u) then True
      else (case surface_id of None \<Rightarrow> False
            | Some s \<Rightarrow> s \<noteq> [] \<and> s \<notin> set (e_surfaces conv_summary)))"

definition list_conversations ::
  "hub \<Rightarrow> string option \<Rightarrow> string option \<Rightarrow> string \<Rightarrow> index_entry list" where
  "list_conversations st user_id surface_id status =
     sort_desc e_updated_at
       (filter (\<lambda>conv_summary. \<not> skipped user_id surface_id status conv_summary)
          (load_index st))"

text \<open>Within every stored conversation the artifact ids are distinct.\<close>

definition artifacts_distinct :: "hub \<Rightarrow> bool" where
  "artifacts_distinct st =
     (\<forall>cid c. files st cid = Some c \<longrightarrow> distinct (map a_id (c_artifacts c)))"

section \<open>Need matcher and profile classifier (preflight.py)\<close>

text \<open>
  The substring test \<^verbatim>\<open>kw in text\<close>, on lists of characters of any kind, and \<^verbatim>\<open>str.lower()\<close>
  on ASCII text: \<open>lower\<close> agrees with \<^verbatim>\<open>str.lower()\<close> on every text whose characters are all
  ASCII (\<open>ascii_text\<close>), the only texts it is applied to below.
\<close>

definition lower_char :: "char \<Rightarrow> char" where
  "lower_char c =
     (if CHR ''A'' \<le> c \<and> c \<le> CHR ''Z'' then char_of (of_char c + (32::nat)) else c)"

definition lower :: "string \<Rightarrow> string" where
  "lower s = map lower_char s"

definition ascii_text :: "string \<Rightarrow> bool" where
  "ascii_text s = list_all (\<lambda>c. of_char c < (128::nat)) s"

fun starts_with :: "'a list \<Rightarrow> 'a list \<Rightarrow> bool" where
  "starts_with text [] = True"
| "starts_with [] (k # ks) = False"
| "starts_with (c # cs) (k # ks) = (c = k \<and> starts_with cs ks)"

fun contains :: "'a list \<Rightarrow> 'a list \<Rightarrow> bool" where
  "contains [] kw = (kw = [])"
| "contains (c # cs) kw = (starts_with (c # cs) kw \<or> contains cs kw)"

definition MISTRAL_PROFILE_TRIGGERS :: "(string \<times> string list) list" where
  "MISTRAL_PROFILE_TRIGGERS =
     [(''code'',
        [''code'', ''coding'', ''script'', ''python'', ''javascript'', ''typescript'',
         ''function'', ''refactor'', ''implement'', ''write a'', ''create a'',
         ''goose'', ''mcp'', ''infrastructure'', ''cli'', ''api'']),
      (''reasoning'',
        [''reason'', ''reasoning'', ''think'', ''strategy'', ''evaluate'', ''analyze'',
         ''triage'', ''complex'', ''multi-step'', ''pattern'', ''decide'', ''compare'',
         ''tradeoff'', ''pros and cons'', ''should i'', ''which is better'']),
      (''math'',
        [''math'', ''calculate'', ''numeric'', ''metrics'', ''finance'', ''ops'',
         ''table'', ''numbers'', ''statistics'', ''percentage'', ''ratio'',
         ''compound'', ''interest'', ''roi'', ''budget'']),
      (''general'',
        [''summarize'', ''summary'', ''draft'', ''explain'', ''describe''])]"

definition trigger_score :: "string \<Rightarrow> string list \<Rightarrow> nat" where
  "trigger_score text_lower triggers = length (filter (contains text_lower) triggers)"

text \<open>The dict \<^verbatim>\<open>scores\<close>, in insertion order: the groups with a positive score.\<close>

definition profile_scores :: "(string \<times> string list) list \<Rightarrow> string \<Rightarrow> (string \<times> nat) list" where
  "profile_scores groups text_lower =
     filter (\<lambda>(profile, score). score > 0)
       (map (\<lambda>(profile, triggers). (profile, trigger_score text_lower triggers)) groups)"

text \<open>
  \<^verbatim>\<open>sorted(scores.items(), key=lambda x: (-x[1], x[0] != "general"))\<close>: ascending and stable on
  the pair of the negated score and a flag, \<open>False\<close> before \<open>True\<close>.
\<close>

definition profile_key :: "string \<times> nat \<Rightarrow> int \<times> bool" where
  "profile_key x = (- int (snd x), fst x \<noteq> ''general'')"

definition detect_profile_in :: "(string \<times> string list) list \<Rightarrow> string \<Rightarrow> string option" where
  "detect_profile_in groups text =
     (let scores = profile_scores groups (lower text) in
      if scores = [] then None
      else (case sort_key profile_key scores of
              [] \<Rightarrow> None
            | x # _ \<Rightarrow> Some (fst x)))"

definition detect_mistral_profile :: "string \<Rightarrow> string option" where
  "detect_mistral_profile text = detect_profile_in MISTRAL_PROFILE_TRIGGERS text"

text \<open>
  The need matcher works on Python strings of any characters: a text and a keyword are lists
  over a type \<open>'c\<close> of characters (Unicode code points), and \<^verbatim>\<open>str.lower()\<close>, which Python
  defines for all of Unicode, is the argument \<open>lower_fn\<close>.
\<close>

record 'c cap_info =
  cap_description :: string
  cap_tool_id :: string
  cap_keywords :: "'c list list"

record need =
  n_capability :: string
  n_description :: string
  n_tool_id :: string
  n_score :: nat

definition keyword_score :: "('c list \<Rightarrow> 'c list) \<Rightarrow> 'c list \<Rightarrow> 'c list list \<Rightarrow> nat" where
  "keyword_score lower_fn text_lower kws =
     length (filter (\<lambda>kw. contains text_lower (lower_fn kw)) kws)"

text \<open>The list \<^verbatim>\<open>needs\<close> before it is sorted: one entry per capability with a positive score.\<close>

fun matched_needs ::
  "('c list \<Rightarrow> 'c list) \<Rightarrow> 'c list \<Rightarrow> (string \<times> 'c cap_info) list \<Rightarrow> need list" where
  "matched_needs lower_fn text_lower [] = []"
| "matched_needs lower_fn text_lower ((cap_id, info) # caps) =
     (let score = keyword_score lower_fn text_lower (cap_keywords info) in
      if score > 0
      then \<lparr>n_capability = cap_id, n_description = cap_description info,
            n_tool_id = cap_tool_id info, n_score = score\<rparr>
           # matched_needs lower_fn text_lower caps
      else matched_needs lower_fn text_lower caps)"


section \<open>Connection broadcast layer (jh_brain_sse_server.py)\<close>

text \<open>
  The generator \<^verbatim>\<open>event_stream\<close> as a resumable machine.  Its control point is where it is
  suspended: before its first statement, at one of the two \<^verbatim>\<open>yield\<close>s in front of the
  \<^verbatim>\<open>try\<close>, at a \<^verbatim>\<open>yield\<close> inside the loop, or finished.  The consumer resumes it with
  \<^verbatim>\<open>next\<close> or ends it with \<^verbatim>\<open>close\<close>, which raises \<^verbatim>\<open>GeneratorExit\<close> at the suspended
  \<^verbatim>\<open>yield\<close>.  \<^verbatim>\<open>handle_message\<close> is the only other code that touches the registry.

  The registry \<^verbatim>\<open>connections\<close> maps a connection id to the queue created for it; a queue is
  named by that id and holds its pending messages.  \<^verbatim>\<open>message_queue.get(timeout=30)\<close> returns
  the oldest pending message, or raises \<^verbatim>\<open>queue.Empty\<close> when none arrives in time: a message
  that arrives during the wait is a \<open>Put\<close> before the resumption.
\<close>

datatype msg = Json string | NotSerializable

datatype sse_out = Event string | Keepalive

datatype control = NotStarted | AtInitialized | AtContext | InLoop | Finished

datatype event = Next | Close | Put string msg

record sse =
  connections :: "string set"
  queues :: "string \<Rightarrow> msg list"
  control :: control

text \<open>\<^verbatim>\<open>json.dumps\<close> raises \<^verbatim>\<open>TypeError\<close> on a value it cannot encode.\<close>

definition create_sse_message :: "msg \<Rightarrow> py_error + string" where
  "create_sse_message data = (case data of Json s \<Rightarrow> Inr s | NotSerializable \<Rightarrow> Inl TypeError)"

text \<open>
  One turn of \<^verbatim>\<open>while True\<close> up to its \<^verbatim>\<open>yield\<close>.  An exception other than \<^verbatim>\<open>queue.Empty\<close>
  leaves through \<^verbatim>\<open>finally\<close>.
\<close>

definition loop_turn :: "string \<Rightarrow> sse \<Rightarrow> sse \<times> sse_out option" where
  "loop_turn connection_id s =
     (case queues s connection_id of
        [] \<Rightarrow> (s\<lparr>control := InLoop\<rparr>, Some Keepalive)
      | message # rest \<Rightarrow>
          (let s1 = s\<lparr>queues := (queues s)(connection_id := rest)\<rparr> in
           case create_sse_message message of
             Inr text \<Rightarrow> (s1\<lparr>control := InLoop\<rparr>, Some (Event text))
           | Inl _ \<Rightarrow>
               (s1\<lparr>connections := connections s1 - {connection_id}, control := Finished\<rparr>,
                None)))"

text \<open>\<^verbatim>\<open>next\<close>: the generator runs from where it is suspended to its next \<^verbatim>\<open>yield\<close>.\<close>

definition event_stream_next :: "string \<Rightarrow> sse \<Rightarrow> sse \<times> sse_out option" where
  "event_stream_next connection_id s =
     (case control s of
        NotStarted \<Rightarrow>
          (s\<lparr>connections := insert connection_id (connections s),
             queues := (queues s)(connection_id := []),
             control := AtInitialized\<rparr>,
           Some (Event ''notifications/initialized''))
      | AtInitialized \<Rightarrow> (s\<lparr>control := AtContext\<rparr>, Some (Event ''notifications/context''))
      | AtContext \<Rightarrow> loop_turn connection_id s
      | InLoop \<Rightarrow> loop_turn connection_id s
      | Finished \<Rightarrow> (s, None))"

text \<open>
  \<^verbatim>\<open>close\<close>: \<^verbatim>\<open>GeneratorExit\<close> is raised at the suspended \<^verbatim>\<open>yield\<close>; the \<^verbatim>\<open>finally\<close> block runs
  when that \<^verbatim>\<open>yield\<close> is inside the \<^verbatim>\<open>try\<close>.
\<close>

definition event_stream_close :: "string \<Rightarrow> sse \<Rightarrow> sse" where
  "event_stream_close connection_id s =
     (case control s of
        InLoop \<Rightarrow> s\<lparr>connections := connections s - {connection_id}, control := Finished\<rparr>
      | _ \<Rightarrow> s\<lparr>control := Finished\<rparr>)"

text \<open>
  \<^verbatim>\<open>handle_message\<close>:
  \<^verbatim>\<open>if connection_id and connection_id in connections: connections[connection_id].put(response)\<close>.
\<close>

definition handle_message_put :: "sse \<Rightarrow> string \<Rightarrow> msg \<Rightarrow> sse" where
  "handle_message_put s cid response =
     (if cid \<noteq> [] \<and> cid \<in> connections s
      then s\<lparr>queues := (queues s)(cid := queues s cid @ [response])\<rparr>
      else s)"

definition step :: "string \<Rightarrow> sse \<Rightarrow> event \<Rightarrow> sse \<times> sse_out option" where
  "step connection_id s ev =
     (case ev of
        Next \<Rightarrow> event_stream_next connection_id s
      | Close \<Rightarrow> (event_stream_close connection_id s, None)
      | Put cid response \<Rightarrow> (handle_message_put s cid response, None))"

fun run_stream :: "string \<Rightarrow> sse \<Rightarrow> event list \<Rightarrow> sse \<times> sse_out list" where
  "run_stream connection_id s [] = (s, [])"
| "run_stream connection_id s (ev # evs) =
     (let (s1, out) = step connection_id s ev;
          (s2, outs) = run_stream connection_id s1 evs
      in (s2, (case out of None \<Rightarrow> outs | Some x \<Rightarrow> x # outs)))"

text \<open>The loop has been entered and, if the generator has finished, its queue is deregistered.\<close>

definition loop_inv :: "string \<Rightarrow> sse \<Rightarrow> bool" where
  "loop_inv connection_id s =
     (control s = InLoop \<or> (control s = Finished \<and> connection_id \<notin> connections s))"

section \<open>Example states\<close>

definition report4 :: "db \<Rightarrow> string \<Rightarrow> string \<Rightarrow> db" where
  "report4 d session_id tool_id =
     log_tool_use
       (log_tool_use
          (log_tool_use
             (log_tool_use d session_id tool_id ''export'' True '''' ''t1'')
             session_id tool_id ''export'' True '''' ''t2'')
          session_id tool_id ''export'' True '''' ''t3'')
       session_id tool_id ''export'' False ''timeout'' ''t4''"

text \<open>
  Two stored rows whose float keys tie: \<open>a\<close> holds the float \<^verbatim>\<open>1.2000000000000002\<close>, which
  is \<open>1351079888211149 / 2 ^ 50\<close>, with 3 successes in 3 uses; \<open>b\<close> holds the float
  \<^verbatim>\<open>1.4000000000000004\<close>, which is \<open>788129934789837 / 2 ^ 49\<close>, with 6 successes in 7 uses.
\<close>

definition double_weights :: tool_weights where
  "double_weights =
     [''a'' \<mapsto> \<lparr>weight = 1351079888211149 / 1125899906842624, total_uses = 3,
                successes = 3, last_used = ''t3''\<rparr>,
      ''b'' \<mapsto> \<lparr>weight = 788129934789837 / 562949953421312, total_uses = 7,
                successes = 6, last_used = ''t7''\<rparr>]"

definition demo_id :: string where
  "demo_id = ''conv_2025-01-01_u1_abcd1234''"

definition demo_hub :: hub where
  "demo_hub =
     (case create_conversation empty_hub ''topic'' ''u1'' ''s1'' None
             ''2025-01-01'' ''abcd1234'' ''t0'' of
        Inr (cid, st) \<Rightarrow> st
      | Inl e \<Rightarrow> empty_hub)"

definition demo_caps :: "(string \<times> char cap_info) list" where
  "demo_caps =
     [(''export_pdf'',
        \<lparr>cap_description = ''Export as PDF'', cap_tool_id = ''T1'',
         cap_keywords = [''export'', ''pdf'']\<rparr>),
      (''export_docx'',
        \<lparr>cap_description = ''Export as DOCX'', cap_tool_id = ''T1'',
         cap_keywords = [''Export'', ''docx'']\<rparr>),
      (''capture'',
        \<lparr>cap_description = ''Capture a session'', cap_tool_id = ''T2'',
         cap_keywords = [''capture'', ''this'']\<rparr>),
      (''export_md'',
        \<lparr>cap_description = ''Export as Markdown'', cap_tool_id = ''T1'',
         cap_keywords = [''export'', ''markdown'']\<rparr>),
      (''polite'',
        \<lparr>cap_description = ''Polite requests'', cap_tool_id = ''T3'',
         cap_keywords = [''please'', ''DOCX'']\<rparr>),
      (''ocr'',
        \<lparr>cap_description = ''Read text from an image'', cap_tool_id = ''T4'',
         cap_keywords = [''ocr'', ''scan'']\<rparr>)]"

definition demo_stream :: sse where
  "demo_stream = \<lparr>connections = {''c1'', ''c2''}, queues = (\<lambda>_. []), control = InLoop\<rparr>"

text \<open>A server without connections, and a generator that has not run yet.\<close>

definition fresh_server :: sse where
  "fresh_server = \<lparr>connections = {}, queues = (\<lambda>_. []), control = NotStarted\<rparr>"

section \<open>Properties of the stable descending sort\<close>

lemma mset_insert_desc: "mset (insert_desc key x ys) = add_mset x (mset ys)"
  by (induction ys) simp_all

lemma mset_sort_desc: "mset (sort_desc key xs) = mset xs"
  by (induction xs) (simp_all add: mset_insert_desc)

lemma set_insert_desc: "set (insert_desc key x ys) = insert x (set ys)"
  by (induction ys) auto

lemma set_sort_desc: "set (sort_desc key xs) = set xs"
  by (induction xs) (simp_all add: set_insert_desc)

lemma length_sort_desc: "length (sort_desc key xs) = length xs"
  using mset_sort_desc [of key xs] by (metis size_mset)

lemma sorted_insert_desc:
  "sorted_wrt (\<lambda>a b. key b \<le> key a) ys \<Longrightarrow>
   sorted_wrt (\<lambda>a b. key b \<le> key a) (insert_desc key x ys)"
proof (induction ys)
  case Nil
  then show ?case by simp
next
  case (Cons y ys)
  show ?case
  proof (cases "key y \<le> key x")
    case True
    with Cons.prems show ?thesis by (auto intro: order_trans)
  next
    case False
    with Cons show ?thesis by (auto simp: set_insert_desc)
  qed
qed

lemma sorted_sort_desc: "sorted_wrt (\<lambda>a b. key b \<le> key a) (sort_desc key xs)"
  by (induction xs) (simp_all add: sorted_insert_desc)

lemma filter_insert_desc_other:
  "key x \<noteq> k \<Longrightarrow> filter (\<lambda>y. key y = k) (insert_desc key x ys) = filter (\<lambda>y. key y = k) ys"
  by (induction ys) simp_all

lemma filter_insert_desc_same:
  "sorted_wrt (\<lambda>a b. key b \<le> key a) ys \<Longrightarrow>
   filter (\<lambda>y. key y = key x) (insert_desc key x ys) = x # filter (\<lambda>y. key y = key x) ys"
proof (induction ys)
  case Nil
  then show ?case by simp
next
  case (Cons y ys)
  show ?case
  proof (cases "key y \<le> key x")
    case True
    then show ?thesis by simp
  next
    case False
    then have "key y \<noteq> key x" by auto
    with False Cons show ?thesis by simp
  qed
qed

lemma sort_desc_stable:
  "filter (\<lambda>y. key y = k) (sort_desc key xs) = filter (\<lambda>y. key y = k) xs"
proof (induction xs)
  case Nil
  then show ?case by simp
next
  case (Cons x xs)
  show ?case
  proof (cases "key x = k")
    case True
    with Cons filter_insert_desc_same [OF sorted_sort_desc, of key x xs]
    show ?thesis by auto
  next
    case False
    with Cons show ?thesis by (simp add: filter_insert_desc_other)
  qed
qed

section \<open>Rounding to binary64\<close>

lemma bit_length_1: "bit_length (Suc 0) = Suc 0"
  by (simp add: bit_length.simps)

lemma floor_log2_unit:
  assumes "1 \<le> q" and "q < 2"
  shows "floor_log2 q = 0"
proof -
  from assms have "\<lfloor>q\<rfloor> = 1" by (intro floor_unique) simp_all
  with assms show ?thesis by (simp add: floor_log2_def bit_length_1)
qed

lemma floor_log2_half:
  assumes "1 / 2 \<le> q" and "q < 1"
  shows "floor_log2 q = - 1"
proof -
  from assms have pos: "0 < q" by simp
  from assms pos have "1 < 1 / q" by (simp add: field_simps)
  moreover from assms pos have "1 / q \<le> 2" by (simp add: field_simps)
  ultimately have "\<lceil>1 / q\<rceil> = 2" by (intro ceiling_unique) simp_all
  with assms show ?thesis by (simp add: floor_log2_def bit_length_1)
qed

lemma round_half_even_nearest:
  assumes "\<bar>q - of_int n\<bar> < 1 / 2"
  shows "round_half_even q = n"
proof (cases "of_int n \<le> q")
  case True
  with assms have "\<lfloor>q\<rfloor> = n" by (intro floor_unique) simp_all
  with assms True show ?thesis by (simp add: round_half_even_def Let_def)
next
  case False
  with assms have "\<lfloor>q\<rfloor> = n - 1" by (intro floor_unique) simp_all
  with assms False show ?thesis by (simp add: round_half_even_def Let_def)
qed

text \<open>
  Between 1 and 2 the binary64 numbers are the multiples of \<open>2 ^ (- 52)\<close>, between one half and
  1 those of \<open>2 ^ (- 53)\<close>; a number strictly nearer to one of them than to its neighbours
  rounds to it.
\<close>

lemma binary64_unit:
  assumes "1 \<le> q" and "q < 2" and "\<bar>q * 2 ^ 52 - of_int n\<bar> < 1 / 2"
  shows "binary64 q = of_int n / 2 ^ 52"
proof -
  from assms have fl: "floor_log2 \<bar>q\<bar> = 0" by (simp add: floor_log2_unit)
  have ulp: "power_int (2::rat) (- 52) = 1 / 2 ^ 52"
    by (simp add: power_int_minus_divide)
  from assms(3) have "round_half_even (q * 2 ^ 52) = n" by (rule round_half_even_nearest)
  with assms(1) fl ulp show ?thesis by (simp add: binary64_def Let_def)
qed

lemma binary64_half:
  assumes "1 / 2 \<le> q" and "q < 1" and "\<bar>q * 2 ^ 53 - of_int n\<bar> < 1 / 2"
  shows "binary64 q = of_int n / 2 ^ 53"
proof -
  from assms have fl: "floor_log2 \<bar>q\<bar> = - 1" by (simp add: floor_log2_half)
  have ulp: "power_int (2::rat) (- 53) = 1 / 2 ^ 53"
    by (simp add: power_int_minus_divide)
  from assms(3) have "round_half_even (q * 2 ^ 53) = n" by (rule round_half_even_nearest)
  with assms(1) fl ulp show ?thesis by (simp add: binary64_def Let_def)
qed

text \<open>\<^verbatim>\<open>3 / 4\<close> is \<^verbatim>\<open>0.75\<close>, \<^verbatim>\<open>3 / 3\<close> is \<^verbatim>\<open>1.0\<close> and \<^verbatim>\<open>6 / 7\<close> is \<^verbatim>\<open>0.8571428571428571\<close>.\<close>

lemma py_truediv_3_4: "py_truediv 3 4 = 3 / 4"
  unfolding py_truediv_def using binary64_half [of "3 / 4" 6755399441055744] by simp

lemma py_truediv_3_3: "py_truediv 3 3 = 1"
  unfolding py_truediv_def using binary64_unit [of 1 4503599627370496] by simp

lemma py_truediv_6_7: "py_truediv 6 7 = 7720456504063707 / 9007199254740992"
  unfolding py_truediv_def using binary64_half [of "6 / 7" 7720456504063707] by simp

text \<open>
  \<^verbatim>\<open>1.2000000000000002 * 1.0\<close> and \<^verbatim>\<open>1.4000000000000004 * 0.8571428571428571\<close> are both
  \<^verbatim>\<open>1.2000000000000002\<close>, and \<^verbatim>\<open>1.0 * 0.5\<close> is \<^verbatim>\<open>0.5\<close>.
\<close>

lemma py_float_mul_a:
  "py_float_mul (1351079888211149 / 1125899906842624) 1 = 1351079888211149 / 1125899906842624"
  unfolding py_float_mul_def
  using binary64_unit [of "1351079888211149 / 1125899906842624" 5404319552844596]
  by simp

lemma py_float_mul_b:
  "py_float_mul (788129934789837 / 562949953421312) (7720456504063707 / 9007199254740992) =
   1351079888211149 / 1125899906842624"
  unfolding py_float_mul_def
  using binary64_unit [of "(788129934789837 / 562949953421312) *
                           (7720456504063707 / 9007199254740992)" 5404319552844596]
  by simp

lemma py_float_mul_default: "py_float_mul 1 (1 / 2) = 1 / 2"
  unfolding py_float_mul_def using binary64_half [of "1 / 2" 4503599627370496] by simp

text \<open>The exact product of the second pair is larger than that of the first.\<close>

lemma exact_products_differ:
  "(1351079888211149 / 1125899906842624 :: rat) * 1 <
   (788129934789837 / 562949953421312) * (7720456504063707 / 9007199254740992)"
  by simp

section \<open>Learning weight store\<close>

lemma weights_log_tool_use:
  "weights (log_tool_use d session_id tool_id need success notes now) =
   update_tool_weight (weights d) tool_id success now"
  by (simp add: log_tool_use_def Let_def)

lemma update_tool_weight_other:
  "t \<noteq> tool_id \<Longrightarrow> update_tool_weight tw tool_id success now t = tw t"
  by (simp add: update_tool_weight_def Let_def split: option.splits)

lemma update_tool_weight_bounded:
  assumes "\<And>t row. tw t = Some row \<Longrightarrow> 1 / 10 \<le> weight row \<and> weight row \<le> 2"
    and "update_tool_weight tw tool_id success now t = Some row"
  shows "1 / 10 \<le> weight row \<and> weight row \<le> 2"
proof (cases "t = tool_id")
  case False
  with assms show ?thesis by (simp add: update_tool_weight_other)
next
  case True
  show ?thesis
  proof (cases "tw tool_id")
    case None
    with True assms(2) show ?thesis
      by (auto simp: update_tool_weight_def Let_def)
  next
    case (Some old)
    from assms(1) [OF Some] have "1 / 10 \<le> weight old" "weight old \<le> 2" by simp_all
    with True Some assms(2) show ?thesis
      by (auto simp: update_tool_weight_def Let_def min_def max_def split: if_splits)
  qed
qed

lemma record_outcomes_bounded:
  "(\<And>t row. tw t = Some row \<Longrightarrow> 1 / 10 \<le> weight row \<and> weight row \<le> 2) \<Longrightarrow>
   record_outcomes tw rs t = Some row \<Longrightarrow> 1 / 10 \<le> weight row \<and> weight row \<le> 2"
proof (induction tw rs rule: record_outcomes.induct)
  case (1 tw)
  then show ?case by simp
next
  case (2 tw tool_id success now rs)
  show ?case
  proof (rule "2.IH")
    fix t' row'
    assume "update_tool_weight tw tool_id success now t' = Some row'"
    then show "1 / 10 \<le> weight row' \<and> weight row' \<le> 2"
      using update_tool_weight_bounded [of tw tool_id success now t' row'] "2.prems"(1)
      by blast
  next
    from "2.prems"(2) show "record_outcomes (update_tool_weight tw tool_id success now) rs t = Some row"
      by simp
  qed
qed

text \<open>
  Claim C2.  Starting from a weight table whose rows all have a weight in \<open>[0.1, 2.0]\<close> (the
  empty table of a fresh database is one), after any finite sequence of outcome reports, for
  any tools in any order, the stored weight of every tool lies in \<open>[0.1, 2.0]\<close>; so does the
  weight that \<^verbatim>\<open>get_tool_weight\<close> reports for a tool without a row.
\<close>

theorem weight_always_in_bounds:
  assumes "\<forall>t row. tw t = Some row \<longrightarrow> 1 / 10 \<le> weight row \<and> weight row \<le> 2"
  shows "(\<forall>row. record_outcomes tw rs tool_id = Some row \<longrightarrow>
            1 / 10 \<le> weight row \<and> weight row \<le> 2)
       \<and> 1 / 10 \<le> get_tool_weight (record_outcomes tw rs) tool_id
       \<and> get_tool_weight (record_outcomes tw rs) tool_id \<le> 2"
proof -
  have row: "1 / 10 \<le> weight row \<and> weight row \<le> 2"
    if "record_outcomes tw rs tool_id = Some row" for row
    using assms that record_outcomes_bounded [of tw rs tool_id row] by blast
  then show ?thesis
    by (cases "record_outcomes tw rs tool_id") (simp_all add: get_tool_weight_def)
qed

text \<open>
  Thirteen successes for one tool on the empty table: the weight reaches the upper bound and
  stays there.
\<close>

theorem weight_always_in_bounds_witness:
  "get_tool_weight
     (record_outcomes Map.empty
        [(''T1'', True, ''t01''), (''T1'', True, ''t02''), (''T1'', True, ''t03''),
         (''T1'', True, ''t04''), (''T1'', True, ''t05''), (''T1'', True, ''t06''),
         (''T1'', True, ''t07''), (''T1'', True, ''t08''), (''T1'', True, ''t09''),
         (''T1'', True, ''t10''), (''T1'', True, ''t11''), (''T1'', True, ''t12''),
         (''T1'', True, ''t13'')]) ''T1'' = 2
   \<and> get_tool_weight
       (record_outcomes Map.empty
          [(''T1'', True, ''t01''), (''T1'', True, ''t02''), (''T1'', True, ''t03''),
           (''T1'', True, ''t04''), (''T1'', True, ''t05''), (''T1'', True, ''t06''),
           (''T1'', True, ''t07''), (''T1'', True, ''t08''), (''T1'', True, ''t09''),
           (''T1'', True, ''t10''), (''T1'', True, ''t11''), (''T1'', True, ''t12''),
           (''T1'', True, ''t13'')]) ''T1'' \<le> 2"
  using weight_always_in_bounds [of Map.empty
        "[(''T1'', True, ''t01''), (''T1'', True, ''t02''), (''T1'', True, ''t03''),
         (''T1'', True, ''t04''), (''T1'', True, ''t05''), (''T1'', True, ''t06''),
         (''T1'', True, ''t07''), (''T1'', True, ''t08''), (''T1'', True, ''t09''),
         (''T1'', True, ''t10''), (''T1'', True, ''t11''), (''T1'', True, ''t12''),
         (''T1'', True, ''t13'')]" "''T1''"]
  by (simp add: update_tool_weight_def get_tool_weight_def)

text \<open>
  Claim C10.  The first report for a tool without a row creates the row with weight 1.0,
  \<open>total_uses = 1\<close> and \<open>successes\<close> 1 or 0 according to the success flag; the weight is not
  adjusted by that report.
\<close>

theorem first_report_creates_neutral_row:
  assumes "tw tool_id = None"
  shows "update_tool_weight tw tool_id success now tool_id =
           Some \<lparr>weight = 1, total_uses = 1, successes = (if success then 1 else 0),
                 last_used = now\<rparr>"
  using assms by (simp add: update_tool_weight_def)

text \<open>A first failure and a first success on the empty table.\<close>

theorem first_report_creates_neutral_row_witness:
  "(Map.empty :: tool_weights) ''T1'' = None
   \<and> update_tool_weight Map.empty ''T1'' False ''t1'' ''T1'' =
       Some \<lparr>weight = 1, total_uses = 1, successes = 0, last_used = ''t1''\<rparr>
   \<and> update_tool_weight Map.empty ''T1'' True ''t1'' ''T1'' =
       Some \<lparr>weight = 1, total_uses = 1, successes = 1, last_used = ''t1''\<rparr>"
  using first_report_creates_neutral_row [of Map.empty "''T1''" False "''t1''"]
        first_report_creates_neutral_row [of Map.empty "''T1''" True "''t1''"]
  by simp

text \<open>
  Claim C1, as stated, fails: on a fresh database three successes and then one failure for
  \<open>T1\<close> do not leave the weight 1.2.
\<close>

theorem four_reports_weight_not_1_2:
  "get_tool_weight (weights (report4 init_db ''s1'' ''T1'')) ''T1'' \<noteq> 12 / 10"
  by (simp add: report4_def weights_log_tool_use update_tool_weight_def get_tool_weight_def
      init_db_def)

text \<open>
  Claim C1, amended.  For a tool without a row, three successes followed by one failure
  through \<^verbatim>\<open>log_tool_use\<close> leave the weight 1.1: the first report creates the row at 1.0, the
  next two successes add 0.1 each and the failure takes 0.1 away.  The row counts 4 uses and
  3 successes, a success rate of 0.75.
\<close>

theorem three_successes_one_failure:
  assumes "weights d tool_id = None"
  shows "weights (report4 d session_id tool_id) tool_id =
           Some \<lparr>weight = 11 / 10, total_uses = 4, successes = 3, last_used = ''t4''\<rparr>
       \<and> get_tool_weight (weights (report4 d session_id tool_id)) tool_id = 11 / 10
       \<and> r_success_rate (rank_row py_truediv (weights (report4 d session_id tool_id)) tool_id) =
           3 / 4"
  using assms
  by (simp add: report4_def weights_log_tool_use update_tool_weight_def get_tool_weight_def
      rank_row_def py_truediv_3_4)

text \<open>The tool \<open>T1\<close> on a fresh database.\<close>

theorem three_successes_one_failure_witness:
  "weights init_db ''T1'' = None
   \<and> get_tool_weight (weights (report4 init_db ''s1'' ''T1'')) ''T1'' = 11 / 10
   \<and> r_success_rate (rank_row py_truediv (weights (report4 init_db ''s1'' ''T1'')) ''T1'') =
       3 / 4"
proof -
  have h: "weights init_db ''T1'' = None" by (simp add: init_db_def)
  show ?thesis using h three_successes_one_failure [OF h, of "''s1''"] by simp
qed

section \<open>Ranking\<close>

lemma rank_row_ids: "map r_tool_id (map (rank_row truediv tw) tool_ids) = tool_ids"
  by (induction tool_ids) (simp_all add: rank_row_def split: option.splits)

text \<open>
  Claim C6.  Whatever the float division and multiplication of the machine are, the ranking
  has one entry per input id, carrying that id.  An id without a row gets weight 1.0 and
  success rate 0.5; an id with a row gets the stored weight and the quotient of successes by
  uses (0.5 for a row without uses).  The key of an entry is the product of its weight and its
  success rate.  The entries are in descending order of key, and the entries of any one key
  appear in their input order.  The ranking is a function of the table and the input list, so
  equal inputs give equal outputs.
\<close>

theorem ranking_sorted_stable:
  fixes truediv :: "int \<Rightarrow> int \<Rightarrow> rat" and mul :: "rat \<Rightarrow> rat \<Rightarrow> 'k::linorder"
  shows
  "mset (get_weighted_tool_ranking truediv mul tw tool_ids) =
     mset (map (rank_row truediv tw) tool_ids)
   \<and> map r_tool_id (map (rank_row truediv tw) tool_ids) = tool_ids
   \<and> mset (map r_tool_id (get_weighted_tool_ranking truediv mul tw tool_ids)) = mset tool_ids
   \<and> sorted_wrt (\<lambda>a b. compound_score mul b \<le> compound_score mul a)
       (get_weighted_tool_ranking truediv mul tw tool_ids)
   \<and> (\<forall>k. filter (\<lambda>x. compound_score mul x = k)
             (get_weighted_tool_ranking truediv mul tw tool_ids) =
           filter (\<lambda>x. compound_score mul x = k) (map (rank_row truediv tw) tool_ids))
   \<and> (\<forall>x. compound_score mul x = mul (r_weight x) (r_success_rate x))
   \<and> (\<forall>t. tw t = None \<longrightarrow>
           rank_row truediv tw t =
             \<lparr>r_tool_id = t, r_weight = 1, r_uses = 0, r_success_rate = 1 / 2\<rparr>)
   \<and> (\<forall>t row. tw t = Some row \<longrightarrow>
           rank_row truediv tw t =
             \<lparr>r_tool_id = t, r_weight = weight row, r_uses = total_uses row,
              r_success_rate =
                (if total_uses row > 0 then truediv (successes row) (total_uses row)
                 else 1 / 2)\<rparr>)"
proof -
  have m: "mset (get_weighted_tool_ranking truediv mul tw tool_ids) =
      mset (map (rank_row truediv tw) tool_ids)"
    by (simp add: get_weighted_tool_ranking_def mset_sort_desc)
  have ids: "map r_tool_id (map (rank_row truediv tw) tool_ids) = tool_ids"
    by (rule rank_row_ids)
  have "mset (map r_tool_id (get_weighted_tool_ranking truediv mul tw tool_ids)) =
        mset (map r_tool_id (map (rank_row truediv tw) tool_ids))"
    using m by (metis mset_map)
  with ids
  have m2: "mset (map r_tool_id (get_weighted_tool_ranking truediv mul tw tool_ids)) =
      mset tool_ids"
    by simp
  have s: "sorted_wrt (\<lambda>a b. compound_score mul b \<le> compound_score mul a)
       (get_weighted_tool_ranking truediv mul tw tool_ids)"
    by (simp add: get_weighted_tool_ranking_def sorted_sort_desc)
  have st: "\<forall>k. filter (\<lambda>x. compound_score mul x = k)
             (get_weighted_tool_ranking truediv mul tw tool_ids) =
           filter (\<lambda>x. compound_score mul x = k) (map (rank_row truediv tw) tool_ids)"
    by (simp add: get_weighted_tool_ranking_def sort_desc_stable)
  have k: "\<forall>x. compound_score mul x = mul (r_weight x) (r_success_rate x)"
    by (simp add: compound_score_def)
  have n: "\<forall>t. tw t = None \<longrightarrow>
           rank_row truediv tw t =
             \<lparr>r_tool_id = t, r_weight = 1, r_uses = 0, r_success_rate = 1 / 2\<rparr>"
    by (simp add: rank_row_def)
  have r: "\<forall>t row. tw t = Some row \<longrightarrow>
           rank_row truediv tw t =
             \<lparr>r_tool_id = t, r_weight = weight row, r_uses = total_uses row,
              r_success_rate =
                (if total_uses row > 0 then truediv (successes row) (total_uses row)
                 else 1 / 2)\<rparr>"
    by (simp add: rank_row_def)
  from m ids m2 s st k n r show ?thesis by blast
qed

text \<open>
  The ranking of the rows of \<open>double_weights\<close> and of two unseen tools, with the float
  operations of Python: the keys of \<open>a\<close> and \<open>b\<close> are both \<^verbatim>\<open>1.2000000000000002\<close>.
\<close>

lemma double_weights_ranking:
  "get_weighted_tool_ranking py_truediv py_float_mul double_weights
     [''c'', ''a'', ''b'', ''d''] =
   [\<lparr>r_tool_id = ''a'', r_weight = 1351079888211149 / 1125899906842624, r_uses = 3,
     r_success_rate = 1\<rparr>,
    \<lparr>r_tool_id = ''b'', r_weight = 788129934789837 / 562949953421312, r_uses = 7,
     r_success_rate = 7720456504063707 / 9007199254740992\<rparr>,
    \<lparr>r_tool_id = ''c'', r_weight = 1, r_uses = 0, r_success_rate = 1 / 2\<rparr>,
    \<lparr>r_tool_id = ''d'', r_weight = 1, r_uses = 0, r_success_rate = 1 / 2\<rparr>]"
  by (simp add: get_weighted_tool_ranking_def double_weights_def rank_row_def
      compound_score_def py_truediv_3_3 py_truediv_6_7 py_float_mul_a py_float_mul_b
      py_float_mul_default)

text \<open>
  With the float operations of Python, \<open>a\<close> and \<open>b\<close> tie and keep their input order in front
  of the unseen tools \<open>c\<close> and \<open>d\<close>, which tie at 0.5 and keep theirs.
\<close>

theorem ranking_sorted_stable_witness:
  "map r_tool_id
     (get_weighted_tool_ranking py_truediv py_float_mul double_weights
        [''c'', ''a'', ''b'', ''d'']) = [''a'', ''b'', ''c'', ''d'']
   \<and> sorted_wrt (\<lambda>a b. compound_score py_float_mul b \<le> compound_score py_float_mul a)
       (get_weighted_tool_ranking py_truediv py_float_mul double_weights
          [''c'', ''a'', ''b'', ''d''])
   \<and> rank_row py_truediv double_weights ''c'' =
       \<lparr>r_tool_id = ''c'', r_weight = 1, r_uses = 0, r_success_rate = 1 / 2\<rparr>"
proof -
  have c: "double_weights ''c'' = None" by (simp add: double_weights_def)
  have ids: "map r_tool_id
     (get_weighted_tool_ranking py_truediv py_float_mul double_weights
        [''c'', ''a'', ''b'', ''d'']) = [''a'', ''b'', ''c'', ''d'']"
    by (simp add: double_weights_ranking)
  show ?thesis
    using ranking_sorted_stable [of py_truediv py_float_mul double_weights
        "[''c'', ''a'', ''b'', ''d'']"] c ids
    by blast
qed

section \<open>Conversation hub\<close>

lemma close_conversation_index:
  "index (snd (close_conversation st cid now)) = index st"
  by (simp add: close_conversation_def Let_def split: option.splits)

text \<open>Closing a conversation changes no listing.\<close>

lemma list_conversations_after_close:
  "list_conversations (snd (close_conversation st cid now)) user_id surface_id status =
   list_conversations st user_id surface_id status"
  by (simp add: list_conversations_def load_index_def close_conversation_index)

lemma update_first_owner:
  "list_all (\<lambda>e. e_owner e = None) idx \<Longrightarrow>
   list_all (\<lambda>e. e_owner e = None)
     (update_first P (\<lambda>entry. entry\<lparr>e_updated_at := now, e_surfaces := f entry\<rparr>) idx)"
  by (induction idx) simp_all

lemma update_index_owner:
  "list_all (\<lambda>e. e_owner e = None) (index st) \<Longrightarrow>
   list_all (\<lambda>e. e_owner e = None) (index (update_index st cid topic surfaces now))"
  by (simp add: update_index_def load_index_def save_index_def Let_def update_first_owner
      split: option.splits)

text \<open>
  \<^verbatim>\<open>_update_index\<close> keeps entries without an owner, and over such an index a listing by owner
  is empty.
\<close>

lemma list_by_owner_empty:
  assumes "list_all (\<lambda>e. e_owner e = None) (index st)" and "u \<noteq> []"
  shows "list_conversations st (Some u) surface_id status = []"
proof -
  have "filter (\<lambda>e. \<not> skipped (Some u) surface_id status e) (index st) = []"
    using assms by (auto simp: filter_empty_conv list_all_iff skipped_def)
  then show ?thesis by (simp add: list_conversations_def load_index_def)
qed

lemma list_conversations_members:
  "set (list_conversations st user_id surface_id status) =
   {e \<in> set (index st). \<not> skipped user_id surface_id status e}"
  by (simp add: list_conversations_def load_index_def set_sort_desc)

lemma list_conversations_sorted:
  "sorted_wrt (\<lambda>a b. e_updated_at b \<le> e_updated_at a)
     (list_conversations st user_id surface_id status)"
  by (simp add: list_conversations_def sorted_sort_desc)

lemma demo_hub_created:
  "create_conversation empty_hub ''topic'' ''u1'' ''s1'' None ''2025-01-01'' ''abcd1234'' ''t0'' =
   Inr (demo_id, demo_hub)"
  by (simp add: demo_hub_def demo_id_def create_conversation_def conversation_id_of_def
      empty_hub_def Let_def)

lemma demo_hub_index:
  "index demo_hub =
     [\<lparr>e_id = demo_id, e_topic = ''topic'', e_owner = None, e_surfaces = [''s1''],
       e_created_at = ''t0'', e_updated_at = ''t0'', e_message_count = 0,
       e_status = ''active''\<rparr>]"
  by (simp add: demo_hub_def demo_id_def create_conversation_def conversation_id_of_def
      empty_hub_def update_index_def load_index_def save_index_def Let_def)

lemma demo_hub_file:
  "files demo_hub demo_id =
     Some \<lparr>c_id = demo_id, c_topic = ''topic'', c_owner = ''u1'', c_surfaces = [''s1''],
           c_tags = [], c_messages = [], c_artifacts = [], c_created_at = ''t0'',
           c_updated_at = ''t0'', c_status = ''active'', c_message_count = 0\<rparr>"
  by (simp add: demo_hub_def demo_id_def create_conversation_def conversation_id_of_def
      empty_hub_def update_index_def load_index_def save_index_def Let_def)

lemma demo_hub_conversation:
  "get_conversation demo_hub demo_id =
     Some \<lparr>c_id = demo_id, c_topic = ''topic'', c_owner = ''u1'', c_surfaces = [''s1''],
           c_tags = [], c_messages = [], c_artifacts = [], c_created_at = ''t0'',
           c_updated_at = ''t0'', c_status = ''active'', c_message_count = 0\<rparr>"
  by (simp add: get_conversation_def demo_hub_file)

lemma demo_hub_writable: "writable demo_hub"
  by (simp add: demo_hub_def demo_id_def create_conversation_def conversation_id_of_def
      empty_hub_def update_index_def load_index_def save_index_def Let_def)

text \<open>
  Claim C3 fails on the code.  After a conversation is created and closed, \<^verbatim>\<open>close_conversation\<close>
  returns \<^verbatim>\<open>True\<close> and the conversation file has status \<open>closed\<close>, yet the listing for status
  \<open>active\<close> still contains the conversation and the listing for status \<open>closed\<close> is empty:
  \<^verbatim>\<open>close_conversation\<close> never writes the index that \<^verbatim>\<open>list_conversations\<close> reads.
\<close>

theorem closed_conversation_still_listed_active:
  "fst (close_conversation demo_hub demo_id ''t1'') = True
   \<and> map_option c_status
       (get_conversation (snd (close_conversation demo_hub demo_id ''t1'')) demo_id) =
       Some ''closed''
   \<and> map e_id (list_conversations (snd (close_conversation demo_hub demo_id ''t1''))
                 None None ''active'') = [demo_id]
   \<and> list_conversations (snd (close_conversation demo_hub demo_id ''t1''))
       None None ''closed'' = []"
proof -
  have ok: "fst (close_conversation demo_hub demo_id ''t1'') = True"
    by (simp add: close_conversation_def get_conversation_def demo_hub_file demo_hub_writable)
  have st: "map_option c_status
       (get_conversation (snd (close_conversation demo_hub demo_id ''t1'')) demo_id) =
       Some ''closed''"
    by (simp add: close_conversation_def get_conversation_def demo_hub_file demo_hub_writable)
  have idx: "index (snd (close_conversation demo_hub demo_id ''t1'')) = index demo_hub"
    by (rule close_conversation_index)
  have a: "map e_id (list_conversations (snd (close_conversation demo_hub demo_id ''t1''))
                 None None ''active'') = [demo_id]"
    by (simp add: list_conversations_def load_index_def idx demo_hub_index skipped_def)
  have c: "list_conversations (snd (close_conversation demo_hub demo_id ''t1''))
       None None ''closed'' = []"
    by (simp add: list_conversations_def load_index_def idx demo_hub_index skipped_def)
  from ok st a c show ?thesis by blast
qed

text \<open>
  Claim C4 fails on the code.  The conversation of owner \<open>u1\<close> is listed without an owner filter
  and is missing from the listing filtered by owner \<open>u1\<close>: the index entries that
  \<^verbatim>\<open>_update_index\<close> writes have no \<^verbatim>\<open>owner\<close> key.
\<close>

theorem owner_filter_finds_nothing:
  "map_option c_owner (get_conversation demo_hub demo_id) = Some ''u1''
   \<and> map e_id (list_conversations demo_hub None None ''active'') = [demo_id]
   \<and> list_conversations demo_hub (Some ''u1'') None ''active'' = []"
  by (simp add: list_conversations_def load_index_def demo_hub_index demo_hub_file skipped_def
      get_conversation_def)

lemma count_le_one:
  "distinct (map f xs) \<Longrightarrow> length (filter (\<lambda>x. f x = k) xs) \<le> Suc 0"
proof (induction xs)
  case Nil
  show ?case by simp
next
  case (Cons a xs)
  show ?case
  proof (cases "f a = k")
    case True
    with Cons.prems have "\<forall>x\<in>set xs. f x \<noteq> k" by (auto simp: image_iff)
    then have "filter (\<lambda>x. f x = k) xs = []" by (simp add: filter_empty_conv)
    with True show ?thesis by simp
  next
    case False
    with Cons show ?thesis by simp
  qed
qed

text \<open>
  Claim C8.  On an existing conversation whose artifact ids are distinct, in a store that can
  be written, \<^verbatim>\<open>link_artifact\<close> succeeds; a second call with the same artifact id (whatever its
  other arguments) succeeds too and leaves the store as the first call left it; the conversation
  then has exactly one artifact with that id, and its artifact ids are still distinct.
\<close>

theorem link_artifact_idempotent:
  assumes conv: "get_conversation st cid = Some c"
    and w: "writable st"
    and d: "distinct (map a_id (c_artifacts c))"
  shows "fst (link_artifact st cid ty aid title conf now) = True
     \<and> link_artifact (snd (link_artifact st cid ty aid title conf now))
         cid ty' aid title' conf' now' =
         (True, snd (link_artifact st cid ty aid title conf now))
     \<and> (\<exists>c'. get_conversation (snd (link_artifact st cid ty aid title conf now)) cid = Some c'
           \<and> length (filter (\<lambda>a. a_id a = aid) (c_artifacts c')) = 1
           \<and> distinct (map a_id (c_artifacts c')))"
proof (cases "list_ex (\<lambda>existing. a_id existing = aid) (c_artifacts c)")
  case True
  then have l: "link_artifact st cid ty aid title conf now = (True, st)"
    using conv by (simp add: link_artifact_def)
  have l2: "link_artifact st cid ty' aid title' conf' now' = (True, st)"
    using conv True by (simp add: link_artifact_def)
  from True have "filter (\<lambda>a. a_id a = aid) (c_artifacts c) \<noteq> []"
    by (auto simp: list_ex_iff filter_empty_conv)
  then have "length (filter (\<lambda>a. a_id a = aid) (c_artifacts c)) \<ge> 1"
    by (cases "filter (\<lambda>a. a_id a = aid) (c_artifacts c)") simp_all
  with count_le_one [OF d, of aid]
  have "length (filter (\<lambda>a. a_id a = aid) (c_artifacts c)) = 1" by simp
  with l l2 conv d show ?thesis by simp
next
  case False
  define art where "art = \<lparr>a_type = ty, a_id = aid, a_title = title,
                  a_confidence = conf, a_linked_at = now\<rparr>"
  define c1 where "c1 = c\<lparr>c_artifacts := c_artifacts c @ [art], c_updated_at := now\<rparr>"
  define st1 where "st1 = st\<lparr>files := (files st)(cid \<mapsto> c1)\<rparr>"
  have l: "link_artifact st cid ty aid title conf now = (True, st1)"
    using conv False w by (simp add: link_artifact_def Let_def st1_def c1_def art_def)
  have g: "get_conversation st1 cid = Some c1"
    by (simp add: get_conversation_def st1_def)
  have ex: "list_ex (\<lambda>existing. a_id existing = aid) (c_artifacts c1)"
    by (simp add: c1_def art_def)
  have l2: "link_artifact st1 cid ty' aid title' conf' now' = (True, st1)"
    using g ex by (simp add: link_artifact_def)
  from False have none: "filter (\<lambda>a. a_id a = aid) (c_artifacts c) = []"
    by (auto simp: list_ex_iff filter_empty_conv)
  then have cnt: "length (filter (\<lambda>a. a_id a = aid) (c_artifacts c1)) = 1"
    by (simp add: c1_def art_def)
  from False have "aid \<notin> set (map a_id (c_artifacts c))"
    by (auto simp: list_ex_iff)
  with d have dist: "distinct (map a_id (c_artifacts c1))"
    by (simp add: c1_def art_def)
  from l l2 g cnt dist show ?thesis by simp
qed

text \<open>Linking \<open>K-1\<close> twice to a new conversation.\<close>

theorem link_artifact_idempotent_witness:
  "get_conversation demo_hub demo_id \<noteq> None \<and> writable demo_hub
   \<and> fst (link_artifact demo_hub demo_id ''knowledge'' ''K-1'' None 1 ''t1'') = True
   \<and> link_artifact (snd (link_artifact demo_hub demo_id ''knowledge'' ''K-1'' None 1 ''t1''))
       demo_id ''decision'' ''K-1'' (Some ''again'') (1 / 2) ''t2'' =
       (True, snd (link_artifact demo_hub demo_id ''knowledge'' ''K-1'' None 1 ''t1''))
   \<and> map_option (\<lambda>c. map a_id (c_artifacts c))
       (get_conversation (snd (link_artifact demo_hub demo_id ''knowledge'' ''K-1'' None 1 ''t1''))
          demo_id) = Some [''K-1'']"
proof -
  have d: "distinct (map a_id (c_artifacts
     \<lparr>c_id = demo_id, c_topic = ''topic'', c_owner = ''u1'', c_surfaces = [''s1''],
           c_tags = [], c_messages = [], c_artifacts = [], c_created_at = ''t0'',
           c_updated_at = ''t0'', c_status = ''active'', c_message_count = 0\<rparr>))"
    by simp
  have art: "map_option (\<lambda>c. map a_id (c_artifacts c))
       (get_conversation (snd (link_artifact demo_hub demo_id ''knowledge'' ''K-1'' None 1 ''t1''))
          demo_id) = Some [''K-1'']"
    by (simp add: link_artifact_def get_conversation_def demo_hub_file demo_hub_writable)
  show ?thesis
    using link_artifact_idempotent [OF demo_hub_conversation demo_hub_writable d,
        of "''knowledge''" "''K-1''" None 1 "''t1''" "''decision''" "Some ''again''" "1 / 2" "''t2''"]
      art demo_hub_conversation demo_hub_writable
    by simp
qed

text \<open>
  The hypothesis of distinct artifact ids holds of every store built through the client: it
  holds of the empty store and each operation keeps it.
\<close>

lemma update_index_files: "files (update_index st cid topic surfaces now) = files st"
  by (simp add: update_index_def save_index_def Let_def split: option.splits)

lemma artifacts_distinct_empty: "artifacts_distinct empty_hub"
  by (simp add: artifacts_distinct_def empty_hub_def)

lemma create_conversation_distinct:
  assumes "artifacts_distinct st"
    and "create_conversation st topic user_id surface_id tags date uuid8 now = Inr (cid, st')"
  shows "artifacts_distinct st'"
  using assms
  by (auto simp: artifacts_distinct_def create_conversation_def Let_def update_index_files
      split: if_splits)

lemma append_message_distinct:
  assumes "artifacts_distinct st"
  shows "artifacts_distinct
           (snd (append_message st cid role content surface_id mode metadata msg_id now))"
  using assms
  by (auto simp: artifacts_distinct_def append_message_def get_conversation_def Let_def
      update_index_files split: option.splits if_splits)

lemma link_artifact_distinct:
  assumes "artifacts_distinct st"
  shows "artifacts_distinct (snd (link_artifact st cid ty aid title conf now))"
  using assms
  by (auto simp: artifacts_distinct_def link_artifact_def get_conversation_def Let_def
      list_ex_iff split: option.splits if_splits)

lemma close_conversation_distinct:
  assumes "artifacts_distinct st"
  shows "artifacts_distinct (snd (close_conversation st cid now))"
  using assms
  by (auto simp: artifacts_distinct_def close_conversation_def get_conversation_def Let_def
      split: option.splits if_splits)

section \<open>Connection broadcast layer\<close>

lemma loop_turn_inv: "loop_inv cid (fst (loop_turn cid s))"
  by (simp add: loop_turn_def loop_inv_def create_sse_message_def Let_def
      split: list.splits msg.splits)

lemma step_inv: "loop_inv cid s \<Longrightarrow> loop_inv cid (fst (step cid s ev))"
proof (cases ev)
  case Next
  assume "loop_inv cid s"
  then show ?thesis
    using Next loop_turn_inv [of cid s]
    by (auto simp: step_def event_stream_next_def loop_inv_def)
next
  case Close
  assume "loop_inv cid s"
  then show ?thesis
    using Close by (auto simp: step_def event_stream_close_def loop_inv_def)
next
  case (Put c m)
  assume "loop_inv cid s"
  then show ?thesis
    using Put by (auto simp: step_def handle_message_put_def loop_inv_def)
qed

lemma run_stream_inv: "loop_inv cid s \<Longrightarrow> loop_inv cid (fst (run_stream cid s evs))"
proof (induction evs arbitrary: s)
  case Nil
  then show ?case by simp
next
  case (Cons ev evs)
  obtain s1 out where st: "step cid s ev = (s1, out)" by (cases "step cid s ev")
  obtain s2 outs where r: "run_stream cid s1 evs = (s2, outs)"
    by (cases "run_stream cid s1 evs")
  from Cons.prems have "loop_inv cid (fst (step cid s ev))" by (rule step_inv)
  with st have "loop_inv cid s1" by simp
  then have "loop_inv cid (fst (run_stream cid s1 evs))" by (rule Cons.IH)
  with st r show ?case by simp
qed

text \<open>
  Once the generator is suspended inside the loop, the keep-alive and the cleanup are as
  intended: resuming it on an empty queue yields the keep-alive and leaves the state as it was;
  a resumption ends the generator only when a message was pending, and then the connection is
  deregistered; closing the generator ends it and deregisters the connection; and after any
  sequence of resumptions, closes and pushes the generator is either still in the loop or
  finished with its connection deregistered.
\<close>

theorem delivery_loop_keepalive_and_cleanup:
  assumes "control s = InLoop"
  shows "(queues s cid = [] \<longrightarrow> step cid s Next = (s, Some Keepalive))
     \<and> (\<forall>s' out. step cid s Next = (s', out) \<and> control s' = Finished \<longrightarrow>
            queues s cid \<noteq> [] \<and> cid \<notin> connections s')
     \<and> control (fst (step cid s Close)) = Finished
     \<and> cid \<notin> connections (fst (step cid s Close))
     \<and> (control (fst (run_stream cid s evs)) = InLoop
          \<or> control (fst (run_stream cid s evs)) = Finished
             \<and> cid \<notin> connections (fst (run_stream cid s evs)))"
proof -
  have inv: "loop_inv cid s" using assms by (simp add: loop_inv_def)
  have a: "queues s cid = [] \<longrightarrow> step cid s Next = (s, Some Keepalive)"
    using assms by (simp add: step_def event_stream_next_def loop_turn_def)
  have b: "\<forall>s' out. step cid s Next = (s', out) \<and> control s' = Finished \<longrightarrow>
            queues s cid \<noteq> [] \<and> cid \<notin> connections s'"
    using assms
    by (auto simp: step_def event_stream_next_def loop_turn_def create_sse_message_def Let_def
        split: list.splits msg.splits)
  have c: "control (fst (step cid s Close)) = Finished
     \<and> cid \<notin> connections (fst (step cid s Close))"
    using assms by (simp add: step_def event_stream_close_def)
  have d: "control (fst (run_stream cid s evs)) = InLoop
          \<or> control (fst (run_stream cid s evs)) = Finished
             \<and> cid \<notin> connections (fst (run_stream cid s evs))"
    using run_stream_inv [OF inv, of evs] by (simp add: loop_inv_def)
  from a b c d show ?thesis by blast
qed

text \<open>
  A connection \<open>c1\<close> beside another one: a keep-alive, a delivered response, a keep-alive, and
  a response that cannot be encoded, which ends the stream and deregisters \<open>c1\<close> only.
\<close>

theorem delivery_loop_keepalive_and_cleanup_witness:
  "control demo_stream = InLoop
   \<and> step ''c1'' demo_stream Next = (demo_stream, Some Keepalive)
   \<and> snd (run_stream ''c1'' demo_stream
            [Next, Put ''c1'' (Json ''r1''), Next, Next, Put ''c1'' NotSerializable, Next]) =
       [Keepalive, Event ''r1'', Keepalive]
   \<and> control (fst (run_stream ''c1'' demo_stream
            [Next, Put ''c1'' (Json ''r1''), Next, Next, Put ''c1'' NotSerializable, Next])) =
       Finished
   \<and> connections (fst (run_stream ''c1'' demo_stream
            [Next, Put ''c1'' (Json ''r1''), Next, Next, Put ''c1'' NotSerializable, Next])) =
       {''c2''}
   \<and> connections (fst (step ''c1'' demo_stream Close)) = {''c2''}"
proof -
  have h: "control demo_stream = InLoop" by (simp add: demo_stream_def)
  have q: "queues demo_stream ''c1'' = []" by (simp add: demo_stream_def)
  have r: "snd (run_stream ''c1'' demo_stream
            [Next, Put ''c1'' (Json ''r1''), Next, Next, Put ''c1'' NotSerializable, Next]) =
          [Keepalive, Event ''r1'', Keepalive]
     \<and> control (fst (run_stream ''c1'' demo_stream
            [Next, Put ''c1'' (Json ''r1''), Next, Next, Put ''c1'' NotSerializable, Next])) =
          Finished
     \<and> connections (fst (run_stream ''c1'' demo_stream
            [Next, Put ''c1'' (Json ''r1''), Next, Next, Put ''c1'' NotSerializable, Next])) =
          {''c2''}"
    by (simp add: demo_stream_def step_def event_stream_next_def loop_turn_def
        handle_message_put_def create_sse_message_def Let_def insert_Diff_if)
  have c: "connections (fst (step ''c1'' demo_stream Close)) = {''c2''}"
    by (auto simp: demo_stream_def step_def event_stream_close_def)
  show ?thesis
    using delivery_loop_keepalive_and_cleanup [OF h, of "''c1''"
        "[Next, Put ''c1'' (Json ''r1''), Next, Next, Put ''c1'' NotSerializable, Next]"]
      h q r c
    by simp
qed

text \<open>
  Claim C9 fails on the code.  The queue is registered by the first statements of the
  generator, and the two \<^verbatim>\<open>yield\<close>s that follow stand in front of the \<^verbatim>\<open>try\<close>.  A client
  that disconnects while the generator is suspended at one of them closes it outside the
  \<^verbatim>\<open>try\<close>: the \<^verbatim>\<open>finally\<close> block does not run, the generator is finished and its queue stays
  in the registry, where later pushes still reach it.
\<close>

theorem disconnect_before_loop_leaks_queue:
  "control (fst (run_stream ''c1'' fresh_server [Next, Close])) = Finished
   \<and> ''c1'' \<in> connections (fst (run_stream ''c1'' fresh_server [Next, Close]))
   \<and> control (fst (run_stream ''c1'' fresh_server [Next, Next, Close])) = Finished
   \<and> ''c1'' \<in> connections (fst (run_stream ''c1'' fresh_server [Next, Next, Close]))
   \<and> queues (fst (run_stream ''c1'' fresh_server
        [Next, Close, Put ''c1'' (Json ''r1''), Put ''c1'' (Json ''r2'')])) ''c1'' =
       [Json ''r1'', Json ''r2'']"
  by (simp add: fresh_server_def step_def event_stream_next_def event_stream_close_def
      handle_message_put_def Let_def)

section \<open>Need matcher\<close>

lemma starts_with_iff: "starts_with t k \<longleftrightarrow> (\<exists>s. t = k @ s)"
  by (induction t k rule: starts_with.induct) auto

lemma contains_iff: "contains t k \<longleftrightarrow> (\<exists>p s. t = p @ k @ s)"
proof (induction t)
  case Nil
  then show ?case by simp
next
  case (Cons c cs)
  have "(\<exists>p s. c # cs = p @ k @ s) \<longleftrightarrow> (\<exists>s. c # cs = k @ s) \<or> (\<exists>p s. cs = p @ k @ s)"
  proof
    assume "\<exists>p s. c # cs = p @ k @ s"
    then obtain p s where ps: "c # cs = p @ k @ s" by blast
    show "(\<exists>s. c # cs = k @ s) \<or> (\<exists>p s. cs = p @ k @ s)"
    proof (cases p)
      case Nil
      with ps show ?thesis by auto
    next
      case (Cons a p')
      with ps show ?thesis by auto
    qed
  next
    assume "(\<exists>s. c # cs = k @ s) \<or> (\<exists>p s. cs = p @ k @ s)"
    then show "\<exists>p s. c # cs = p @ k @ s"
    proof
      assume "\<exists>s. c # cs = k @ s"
      then show ?thesis by (metis append_Nil)
    next
      assume "\<exists>p s. cs = p @ k @ s"
      then show ?thesis by (metis append_Cons)
    qed
  qed
  with Cons show ?case by (simp add: starts_with_iff)
qed



lemma matched_needs_info:
  "n \<in> set (matched_needs lower_fn t caps) \<Longrightarrow>
   \<exists>i. (n_capability n, i) \<in> set caps \<and> n_description n = cap_description i
      \<and> n_tool_id n = cap_tool_id i
      \<and> n_score n = keyword_score lower_fn t (cap_keywords i)
      \<and> 0 < n_score n"
  by (induction lower_fn t caps rule: matched_needs.induct) (auto simp: Let_def split: if_splits)



text \<open>An ASCII registry and ASCII texts, with \<open>lower\<close> for \<^verbatim>\<open>str.lower()\<close>.\<close>

lemma demo_caps_ascii:
  "list_all (\<lambda>(c, i). list_all ascii_text (cap_keywords i)) demo_caps
   \<and> ascii_text ''Please export this as DOCX''"
  by (simp add: demo_caps_def ascii_text_def)




section \<open>Profile classifier\<close>

text \<open>
  Claim C5 fails on the code.  In \<open>summarize this code\<close> the groups \<open>code\<close> and \<open>general\<close> both
  score 1, and the classifier returns \<open>general\<close>: the sort key puts \<^verbatim>\<open>False\<close>, the flag of
  the generic group, in front of \<^verbatim>\<open>True\<close>.
\<close>

theorem general_wins_tie_with_specialist:
  "profile_scores MISTRAL_PROFILE_TRIGGERS (lower ''summarize this code'') =
     [(''code'', 1), (''general'', 1)]
   \<and> detect_mistral_profile ''summarize this code'' = Some ''general''"
  by code_simp

text \<open>
  The three lemmas that follow are about ASCII texts, on which \<open>lower\<close> is \<^verbatim>\<open>str.lower()\<close>.
  The classifier returns \<^verbatim>\<open>None\<close> exactly when no trigger word occurs in the text.
\<close>

lemma detect_profile_none_iff:
  assumes "ascii_text text"
  shows "detect_profile_in groups text = None \<longleftrightarrow>
   (\<forall>(p, ts)\<in>set groups. \<forall>t\<in>set ts. \<not> (\<exists>a b. lower text = a @ t @ b))"
proof -
  have s: "sort_key profile_key xs = [] \<longleftrightarrow> xs = []" for xs
    by (metis length_sort length_0_conv)
  have "profile_scores groups (lower text) = [] \<longleftrightarrow>
        (\<forall>(p, ts)\<in>set groups. \<forall>t\<in>set ts. \<not> contains (lower text) t)"
    by (auto simp: profile_scores_def trigger_score_def filter_empty_conv)
  then show ?thesis
    by (auto simp: detect_profile_in_def Let_def s contains_iff split: list.splits)
qed

text \<open>The group returned has the highest score.\<close>

lemma detect_profile_highest:
  assumes det: "detect_profile_in groups text = Some p" and "ascii_text text"
  shows "\<exists>s. (p, s) \<in> set (profile_scores groups (lower text))
           \<and> (\<forall>(q, r)\<in>set (profile_scores groups (lower text)). r \<le> s)"
proof -
  define scores where "scores = profile_scores groups (lower text)"
  from det obtain x rest where srt: "sort_key profile_key scores = x # rest" and p: "p = fst x"
    by (auto simp: detect_profile_in_def Let_def scores_def split: if_splits list.splits)
  have "sorted (map profile_key (sort_key profile_key scores))" by (rule sorted_sort_key)
  with srt have least: "\<forall>y\<in>set (x # rest). profile_key x \<le> profile_key y"
    by auto
  have mem: "set (x # rest) = set scores"
    using srt by (metis set_sort)
  have "\<forall>y\<in>set scores. snd y \<le> snd x"
  proof
    fix y assume "y \<in> set scores"
    with least mem have "profile_key x \<le> profile_key y" by blast
    then show "snd y \<le> snd x" by (auto simp: profile_key_def less_eq_prod_def)
  qed
  moreover have "(fst x, snd x) \<in> set scores" using mem by auto
  ultimately show ?thesis using p unfolding scores_def by (intro exI [of _ "snd x"]) auto
qed

text \<open>Whenever the generic group reaches the highest score, it is the one returned.\<close>

lemma general_wins_every_tie:
  assumes top: "(''general'', s) \<in> set (profile_scores groups (lower text))"
    and max: "\<forall>(q, r)\<in>set (profile_scores groups (lower text)). r \<le> s"
    and "ascii_text text"
  shows "detect_profile_in groups text = Some ''general''"
proof -
  define scores where "scores = profile_scores groups (lower text)"
  from top have ne: "scores \<noteq> []" by (auto simp: scores_def)
  then have "sort_key profile_key scores \<noteq> []" by (metis length_sort length_0_conv)
  then obtain x rest where srt: "sort_key profile_key scores = x # rest"
    by (cases "sort_key profile_key scores") auto
  have "sorted (map profile_key (sort_key profile_key scores))" by (rule sorted_sort_key)
  with srt have least: "\<forall>y\<in>set (x # rest). profile_key x \<le> profile_key y"
    by auto
  have mem: "set (x # rest) = set scores"
    using srt by (metis set_sort)
  with top least have k: "profile_key x \<le> profile_key (''general'', s)"
    unfolding scores_def by blast
  from mem have "x \<in> set scores" by (metis list.set_intros(1))
  with max have "snd x \<le> s" by (cases x) (auto simp: scores_def)
  with k have "fst x = ''general''"
    by (auto simp: profile_key_def less_eq_prod_def)
  with srt ne show ?thesis
    by (simp add: detect_profile_in_def Let_def scores_def [symmetric])
qed

end
